theory Spec2Isabelle
  imports Main "HOL-Library.Word"
begin

unbundle bit_operations_syntax

section \<open>Low-level types (types.hpp)\<close>

text \<open>
  Bytes are 8-bit words, the C++ fixed-width integers are words of their width; a signed
  integer is the word of its two's complement bits (read with \<open>sint\<close>, extended with
  \<open>scast\<close>).  \<open>std::size_t\<close> positions and sizes are natural numbers: a position never
  exceeds the size of the string it points into.  Pointers into the reader's borrowed
  memory are offsets into one byte list.
\<close>

type_synonym byte = "8 word"
type_synonym uint32_t = "32 word"
type_synonym int32_t = "32 word"
type_synonym uint64_t = "64 word"
type_synonym int64_t = "64 word"

text \<open>\<open>using pbf_tag_type = uint32_t;\<close>  \<open>using pbf_length_type = uint32_t;\<close>\<close>

type_synonym pbf_tag_type = uint32_t
type_synonym pbf_length_type = uint32_t

definition sizeof_pbf_length_type :: nat where
  "sizeof_pbf_length_type = 4"

text \<open>
  \<open>enum class pbf_wire_type : uint32_t\<close>.  A value of the enumeration is its underlying
  32-bit integer: \<open>pbf_wire_type(value & 0x07)\<close> in \<open>next()\<close> produces all of 0..7, not
  only the five enumerators.
\<close>

type_synonym pbf_wire_type = uint32_t

definition varint :: pbf_wire_type where "varint = 0"
definition fixed64 :: pbf_wire_type where "fixed64 = 1"
definition length_delimited :: pbf_wire_type where "length_delimited = 2"
definition fixed32 :: pbf_wire_type where "fixed32 = 5"
definition unknown :: pbf_wire_type where "unknown = 99"

text \<open>\<open>class data_view\<close>: a pointer and a size.\<close>

record data_view =
  dv_data :: nat
  dv_size :: nat

section \<open>Exceptions\<close>

datatype exception =
    end_of_buffer_exception
  | varint_too_long_exception
  | unknown_pbf_wire_type_exception

section \<open>Varint and zigzag codec (varint.hpp)\<close>

text \<open>
  The header \<open>varint.hpp\<close>, which declares \<open>write_varint\<close>, \<open>decode_varint\<close>,
  \<open>encode_zigzag64\<close> and \<open>decode_zigzag64\<close>, is not among the sources.  The four
  definitions of this section follow section 4.1 of the specification.
\<close>

text \<open>
  Modelled from the spec: \<open>write_varint\<close> of the missing \<open>varint.hpp\<close>.  "Emits 1-10 bytes:
  repeatedly take the low 7 bits, OR in the high bit if more non-zero bits remain, append,
  shift right 7; stop after a byte whose top bit is clear."  \<open>write_varint v\<close> is the
  sequence of the bytes emitted for \<open>v\<close>; the C++ function writes them through an output
  iterator (a \<open>back_inserter\<close> appends them, an iterator into a string overwrites the bytes
  there) and returns their number.
\<close>

function write_varint :: "uint64_t \<Rightarrow> byte list" where
  "write_varint v =
     (if v \<ge> 0x80 then (ucast (v AND 0x7f) OR 0x80) # write_varint (drop_bit 7 v)
      else [ucast v])"
  by pat_completeness auto
termination
  by (relation "measure unat") (simp_all add: word_le_nat_alt drop_bit_eq_div unat_div)

declare write_varint.simps [simp del]

text \<open>
  Modelled from the spec: the loop of \<open>decode_varint\<close> of the missing \<open>varint.hpp\<close>.  "Reads
  up to 10 bytes.  Each byte contributes its low 7 bits in little-endian order; iteration
  stops at the first byte with high bit clear.  Fails with end_of_buffer if cursor reaches
  end before a terminator, and with varint_too_long if a 10th continuation byte is seen."
  The first argument counts the bytes already consumed; the result is the value modulo
  \<open>2^64\<close> and the number of bytes consumed.
\<close>

fun decode_varint_from :: "nat \<Rightarrow> byte list \<Rightarrow> exception + (uint64_t \<times> nat)" where
  "decode_varint_from k [] = Inl end_of_buffer_exception"
| "decode_varint_from k (b # bs) =
     (if \<not> bit b 7 then Inr (push_bit (7 * k) (ucast b), Suc k)
      else if k \<ge> 9 then Inl varint_too_long_exception
      else (case decode_varint_from (Suc k) bs of
              Inl e \<Rightarrow> Inl e
            | Inr (v, n) \<Rightarrow> Inr (push_bit (7 * k) (ucast (b AND 0x7f)) OR v, n)))"

text \<open>
  Modelled from the spec: \<open>decode_varint(const char** data, const char* end)\<close> of the
  missing \<open>varint.hpp\<close>, on the bytes of \<open>mem\<close> between the cursor \<open>p\<close> and \<open>e\<close>.  "On
  success, advances cursor past the terminator and returns the accumulated value modulo
  2^64.  On failure, leaves cursor unchanged."  The result is the value and the advanced
  cursor, or the exception.
\<close>

definition decode_varint :: "byte list \<Rightarrow> nat \<Rightarrow> nat \<Rightarrow> exception + (uint64_t \<times> nat)" where
  "decode_varint mem p e =
     (case decode_varint_from 0 (take (e - p) (drop p mem)) of
        Inl x \<Rightarrow> Inl x
      | Inr (v, n) \<Rightarrow> Inr (v, p + n))"

text \<open>
  Modelled from the spec: \<open>encode_zigzag64\<close> of the missing \<open>varint.hpp\<close>.
  "\<open>enc(n) = (n<<1) ^ (n>>63)\<close> for 64-bit signed \<open>n\<close> (arithmetic shift)."
\<close>

definition encode_zigzag64 :: "int64_t \<Rightarrow> uint64_t" where
  "encode_zigzag64 n = push_bit 1 n XOR signed_drop_bit 63 n"

text \<open>
  Modelled from the spec: \<open>decode_zigzag64\<close> of the missing \<open>varint.hpp\<close>.
  "\<open>dec(u) = (u>>1) ^ -(u&1)\<close>."
\<close>

definition decode_zigzag64 :: "uint64_t \<Rightarrow> int64_t" where
  "decode_zigzag64 u = drop_bit 1 u XOR (- (u AND 1))"

section \<open>The reader (pbf_reader.hpp)\<close>

text \<open>
  The reader borrows the bytes \<open>mem\<close>; \<open>m_data\<close> and \<open>m_end\<close> are offsets into them.
  An operation that can throw returns its result, or the exception, together with the
  reader as the call leaves it: the object outlives the exception, and what it holds
  afterwards is what the strong exception guarantee is about.

  The model is of the build with \<open>NDEBUG\<close>: \<open>protozero_assert\<close> expands to nothing and
  the block \<open>#ifndef NDEBUG m_tag = 0; #endif\<close> of \<open>skip_bytes\<close> is absent.
\<close>

record pbf_reader =
  mem :: "byte list"
  m_data :: nat
  m_end :: nat
  m_wire_type :: pbf_wire_type
  m_tag :: pbf_tag_type

text \<open>\<open>pbf_reader(const char* data, std::size_t length)\<close> on a buffer starting at offset 0.\<close>

definition pbf_reader_new :: "byte list \<Rightarrow> nat \<Rightarrow> pbf_reader" where
  "pbf_reader_new buf len =
     \<lparr>mem = buf, m_data = 0, m_end = 0 + len, m_wire_type = unknown, m_tag = 0\<rparr>"

text \<open>\<open>explicit pbf_reader(const data_view& view)\<close> on a view into the memory \<open>buf\<close>.\<close>

definition pbf_reader_view :: "byte list \<Rightarrow> data_view \<Rightarrow> pbf_reader" where
  "pbf_reader_view buf view =
     \<lparr>mem = buf, m_data = dv_data view, m_end = dv_data view + dv_size view,
      m_wire_type = unknown, m_tag = 0\<rparr>"

definition operator_bool :: "pbf_reader \<Rightarrow> bool" where
  "operator_bool r = (m_data r < m_end r)"

definition length_r :: "pbf_reader \<Rightarrow> nat" where
  "length_r r = m_end r - m_data r"

definition tag :: "pbf_reader \<Rightarrow> pbf_tag_type" where
  "tag r = m_tag r"

definition wire_type :: "pbf_reader \<Rightarrow> pbf_wire_type" where
  "wire_type r = m_wire_type r"

definition has_wire_type :: "pbf_reader \<Rightarrow> pbf_wire_type \<Rightarrow> bool" where
  "has_wire_type r type = (wire_type r = type)"

definition get_length :: "pbf_reader \<Rightarrow> (exception + pbf_length_type) \<times> pbf_reader" where
  "get_length r =
     (case decode_varint (mem r) (m_data r) (m_end r) of
        Inl e \<Rightarrow> (Inl e, r)
      | Inr (v, p) \<Rightarrow> (Inr (ucast v), r\<lparr>m_data := p\<rparr>))"

definition skip_bytes :: "pbf_length_type \<Rightarrow> pbf_reader \<Rightarrow> (exception + unit) \<times> pbf_reader" where
  "skip_bytes len r =
     (if m_data r + unat len > m_end r then (Inl end_of_buffer_exception, r)
      else (Inr (), r\<lparr>m_data := m_data r + unat len\<rparr>))"

definition get_len_and_skip :: "pbf_reader \<Rightarrow> (exception + pbf_length_type) \<times> pbf_reader" where
  "get_len_and_skip r =
     (case get_length r of
        (Inl e, r1) \<Rightarrow> (Inl e, r1)
      | (Inr len, r1) \<Rightarrow>
          (case skip_bytes len r1 of
             (Inl e, r2) \<Rightarrow> (Inl e, r2)
           | (Inr u, r2) \<Rightarrow> (Inr len, r2)))"

text \<open>
  The overloads of \<open>get_scalar\<close>, one per dispatch tag.  The conversion \<open>R(...)\<close> to the
  result type is applied by the typed accessor.
\<close>

definition get_scalar_varint :: "pbf_reader \<Rightarrow> (exception + uint64_t) \<times> pbf_reader" where
  "get_scalar_varint r =
     (case decode_varint (mem r) (m_data r) (m_end r) of
        Inl e \<Rightarrow> (Inl e, r)
      | Inr (v, p) \<Rightarrow> (Inr v, r\<lparr>m_data := p\<rparr>))"

definition get_scalar_bool :: "pbf_reader \<Rightarrow> (exception + bool) \<times> pbf_reader" where
  "get_scalar_bool r =
     (case skip_bytes 1 r of
        (Inl e, r1) \<Rightarrow> (Inl e, r1)
      | (Inr u, r1) \<Rightarrow> (Inr (mem r1 ! (m_data r1 - 1) \<noteq> 0), r1))"

definition get_scalar_svarint :: "pbf_reader \<Rightarrow> (exception + int64_t) \<times> pbf_reader" where
  "get_scalar_svarint r =
     (case decode_varint (mem r) (m_data r) (m_end r) of
        Inl e \<Rightarrow> (Inl e, r)
      | Inr (v, p) \<Rightarrow> (Inr (decode_zigzag64 v), r\<lparr>m_data := p\<rparr>))"

text \<open>
  \<open>get_scalar(fixed_tag)\<close> with \<open>size = sizeof(R)\<close>: the \<open>size\<close> bytes before the advanced
  cursor, which \<open>copy_or_byteswap\<close> loads as a little-endian value.
\<close>

definition get_scalar_fixed :: "nat \<Rightarrow> pbf_reader \<Rightarrow> (exception + byte list) \<times> pbf_reader" where
  "get_scalar_fixed sz r =
     (case skip_bytes (of_nat sz) r of
        (Inl e, r1) \<Rightarrow> (Inl e, r1)
      | (Inr u, r1) \<Rightarrow> (Inr (take sz (drop (m_data r1 - sz) (mem r1))), r1))"

definition get_scalar_length_delimited :: "pbf_reader \<Rightarrow> (exception + data_view) \<times> pbf_reader" where
  "get_scalar_length_delimited r =
     (case get_len_and_skip r of
        (Inl e, r1) \<Rightarrow> (Inl e, r1)
      | (Inr len, r1) \<Rightarrow>
          (Inr \<lparr>dv_data = m_data r1 - unat len, dv_size = unat len\<rparr>, r1))"

text \<open>\<open>get_impl(detail::is_packed)\<close>: the iterator range is its pair of positions.\<close>

definition get_impl_packed :: "pbf_reader \<Rightarrow> (exception + nat \<times> nat) \<times> pbf_reader" where
  "get_impl_packed r =
     (case get_len_and_skip r of
        (Inl e, r1) \<Rightarrow> (Inl e, r1)
      | (Inr len, r1) \<Rightarrow> (Inr (m_data r1 - unat len, m_data r1), r1))"

definition "next" :: "pbf_reader \<Rightarrow> (exception + bool) \<times> pbf_reader" where
  "next r =
     (if m_data r = m_end r then (Inr False, r)
      else
        (case decode_varint (mem r) (m_data r) (m_end r) of
           Inl e \<Rightarrow> (Inl e, r)
         | Inr (value, p) \<Rightarrow>
             (let r1 = r\<lparr>m_data := p\<rparr>;
                  r2 = r1\<lparr>m_tag := ucast (drop_bit 3 value)\<rparr>;
                  r3 = r2\<lparr>m_wire_type := ucast (value AND 0x07)\<rparr>
              in if m_wire_type r3 = varint \<or> m_wire_type r3 = fixed64
                    \<or> m_wire_type r3 = length_delimited \<or> m_wire_type r3 = fixed32
                 then (Inr True, r3)
                 else (Inl unknown_pbf_wire_type_exception, r3))))"

text \<open>Typed accessors: \<open>get<T>()\<close> dispatches on \<open>T::tag\<close> and converts to \<open>T::type\<close>.\<close>

definition get_bool :: "pbf_reader \<Rightarrow> (exception + bool) \<times> pbf_reader" where
  "get_bool r = get_scalar_bool r"

definition get_uint64 :: "pbf_reader \<Rightarrow> (exception + uint64_t) \<times> pbf_reader" where
  "get_uint64 r = get_scalar_varint r"

definition get_int64 :: "pbf_reader \<Rightarrow> (exception + int64_t) \<times> pbf_reader" where
  "get_int64 r = get_scalar_varint r"

definition get_uint32 :: "pbf_reader \<Rightarrow> (exception + uint32_t) \<times> pbf_reader" where
  "get_uint32 r = (case get_scalar_varint r of (res, r1) \<Rightarrow> (map_sum id ucast res, r1))"

definition get_int32 :: "pbf_reader \<Rightarrow> (exception + int32_t) \<times> pbf_reader" where
  "get_int32 r = (case get_scalar_varint r of (res, r1) \<Rightarrow> (map_sum id ucast res, r1))"

definition get_enum :: "pbf_reader \<Rightarrow> (exception + int32_t) \<times> pbf_reader" where
  "get_enum r = (case get_scalar_varint r of (res, r1) \<Rightarrow> (map_sum id ucast res, r1))"

definition get_sint64 :: "pbf_reader \<Rightarrow> (exception + int64_t) \<times> pbf_reader" where
  "get_sint64 r = get_scalar_svarint r"

definition get_sint32 :: "pbf_reader \<Rightarrow> (exception + int32_t) \<times> pbf_reader" where
  "get_sint32 r = (case get_scalar_svarint r of (res, r1) \<Rightarrow> (map_sum id ucast res, r1))"

definition get_fixed32 :: "pbf_reader \<Rightarrow> (exception + uint32_t) \<times> pbf_reader" where
  "get_fixed32 r =
     (case get_scalar_fixed 4 r of (res, r1) \<Rightarrow> (map_sum id (\<lambda>bs. word_rcat (rev bs)) res, r1))"

definition get_fixed64 :: "pbf_reader \<Rightarrow> (exception + uint64_t) \<times> pbf_reader" where
  "get_fixed64 r =
     (case get_scalar_fixed 8 r of (res, r1) \<Rightarrow> (map_sum id (\<lambda>bs. word_rcat (rev bs)) res, r1))"

definition get_view :: "pbf_reader \<Rightarrow> (exception + data_view) \<times> pbf_reader" where
  "get_view r = get_scalar_length_delimited r"

definition get_data :: "pbf_reader \<Rightarrow> (exception + data_view) \<times> pbf_reader" where
  "get_data r = get_scalar_length_delimited r"

definition get_message :: "pbf_reader \<Rightarrow> (exception + pbf_reader) \<times> pbf_reader" where
  "get_message r =
     (case get_data r of (res, r1) \<Rightarrow> (map_sum id (pbf_reader_view (mem r1)) res, r1))"

definition skip :: "pbf_reader \<Rightarrow> (exception + unit) \<times> pbf_reader" where
  "skip r =
     (if wire_type r = varint then
        (case get_uint32 r of (res, r1) \<Rightarrow> (map_sum id (\<lambda>v. ()) res, r1))
      else if wire_type r = fixed64 then skip_bytes 8 r
      else if wire_type r = length_delimited then
        (case get_length r of
           (Inl e, r1) \<Rightarrow> (Inl e, r1)
         | (Inr len, r1) \<Rightarrow> skip_bytes len r1)
      else if wire_type r = fixed32 then skip_bytes 4 r
      else (Inr (), r))"

section \<open>The writer (pbf_writer.hpp)\<close>

subsection \<open>The std::string operations the writer uses\<close>

text \<open>
  \<open>resize(n)\<close> truncates, or pads with zero bytes; \<open>erase(from, to)\<close> removes the
  half-open range and shifts the tail left; writing a byte sequence through a raw iterator
  at offset \<open>pos\<close> overwrites the bytes there.
\<close>

definition string_resize :: "byte list \<Rightarrow> nat \<Rightarrow> byte list" where
  "string_resize s n = take n s @ replicate (n - length s) 0"

definition string_erase :: "byte list \<Rightarrow> nat \<Rightarrow> nat \<Rightarrow> byte list" where
  "string_erase s from_pos to_pos = take from_pos s @ drop to_pos s"

definition string_write_at :: "byte list \<Rightarrow> nat \<Rightarrow> byte list \<Rightarrow> byte list" where
  "string_write_at s pos bs = take pos s @ bs @ drop (pos + length bs) s"

subsection \<open>Writers and the store they live in\<close>

text \<open>
  A child writer and its parent point to the same \<open>std::string\<close>, and the child holds a
  pointer to its parent, so writers and strings live in a store and are named by their
  addresses.  \<open>m_data_w\<close> is the member \<open>m_data\<close> of the writer (the reader has a member of
  the same name).  Only writers with a data store are modelled: the default constructor and
  \<open>rollback()\<close>, which set \<open>m_data\<close> to \<open>nullptr\<close>, are left out.  As for the reader, the
  model is of the build with \<open>NDEBUG\<close>.
\<close>

type_synonym string_ptr = nat
type_synonym writer_ptr = nat

record pbf_writer =
  m_data_w :: string_ptr
  m_parent_writer :: "writer_ptr option"
  m_rollback_pos :: nat
  m_pos :: nat

record heap =
  strings :: "string_ptr \<Rightarrow> byte list"
  writers :: "writer_ptr \<Rightarrow> pbf_writer"

text \<open>\<open>*m_data\<close> of the writer at \<open>w\<close>, and an update of that string in place.\<close>

definition buffer :: "heap \<Rightarrow> writer_ptr \<Rightarrow> byte list" where
  "buffer h w = strings h (m_data_w (writers h w))"

definition string_update :: "heap \<Rightarrow> writer_ptr \<Rightarrow> (byte list \<Rightarrow> byte list) \<Rightarrow> heap" where
  "string_update h w f =
     h\<lparr>strings := (strings h)(m_data_w (writers h w) := f (buffer h w))\<rparr>"

definition writer_update :: "heap \<Rightarrow> writer_ptr \<Rightarrow> (pbf_writer \<Rightarrow> pbf_writer) \<Rightarrow> heap" where
  "writer_update h w g = h\<lparr>writers := (writers h)(w := g (writers h w))\<rparr>"

text \<open>\<open>m_data->append(...)\<close>: every field write of a writer ends in appends to its string.\<close>

definition string_append :: "heap \<Rightarrow> writer_ptr \<Rightarrow> byte list \<Rightarrow> heap" where
  "string_append h w bs = string_update h w (\<lambda>s. s @ bs)"

text \<open>
  \<open>static const int reserve_bytes = sizeof(pbf_length_type) * 8 / 7 + 1;\<close> and
  \<open>size_is_known = std::numeric_limits<std::size_t>::max()\<close> for a 64-bit \<open>std::size_t\<close>.
\<close>

definition reserve_bytes :: nat where
  "reserve_bytes = sizeof_pbf_length_type * 8 div 7 + 1"

definition size_is_known :: nat where
  "size_is_known = 2 ^ 64 - 1"

definition add_varint :: "heap \<Rightarrow> writer_ptr \<Rightarrow> uint64_t \<Rightarrow> heap" where
  "add_varint h w v = string_append h w (write_varint v)"

definition add_field :: "heap \<Rightarrow> writer_ptr \<Rightarrow> pbf_tag_type \<Rightarrow> pbf_wire_type \<Rightarrow> heap" where
  "add_field h w tg type = (let b = push_bit 3 tg OR type in add_varint h w (ucast b))"

text \<open>Little-endian bytes of a value of \<open>sz\<close> bytes: what \<open>add_fixed<T>\<close> appends.\<close>

definition le_bytes :: "nat \<Rightarrow> uint64_t \<Rightarrow> byte list" where
  "le_bytes sz v = map (\<lambda>i. ucast (drop_bit (8 * i) v)) [0..<sz]"

definition add_fixed :: "nat \<Rightarrow> heap \<Rightarrow> writer_ptr \<Rightarrow> uint64_t \<Rightarrow> heap" where
  "add_fixed sz h w v = string_append h w (le_bytes sz v)"

text \<open>\<open>reserve\<close> changes the capacity of the string only, which no operation observes.\<close>

definition reserve :: "heap \<Rightarrow> writer_ptr \<Rightarrow> nat \<Rightarrow> heap" where
  "reserve h w sz = h"

definition add_length_varint :: "heap \<Rightarrow> writer_ptr \<Rightarrow> pbf_tag_type \<Rightarrow> pbf_length_type \<Rightarrow> heap" where
  "add_length_varint h w tg len =
     (let h1 = add_field h w tg length_delimited in add_varint h1 w (ucast len))"

definition open_submessage :: "heap \<Rightarrow> writer_ptr \<Rightarrow> pbf_tag_type \<Rightarrow> nat \<Rightarrow> heap" where
  "open_submessage h w tg sz =
     (let h3 =
        (if sz = 0 then
           (let h1 = writer_update h w (\<lambda>wr. wr\<lparr>m_rollback_pos := length (buffer h w)\<rparr>);
                h2 = add_field h1 w tg length_delimited
            in string_append h2 w (replicate reserve_bytes 0))
         else
           (let h1 = writer_update h w (\<lambda>wr. wr\<lparr>m_rollback_pos := size_is_known\<rparr>);
                h2 = add_length_varint h1 w tg (of_nat sz)
            in reserve h2 w sz))
      in writer_update h3 w (\<lambda>wr. wr\<lparr>m_pos := length (buffer h3 w)\<rparr>))"

definition rollback_submessage :: "heap \<Rightarrow> writer_ptr \<Rightarrow> heap" where
  "rollback_submessage h w =
     (let h1 = string_update h w (\<lambda>s. string_resize s (m_rollback_pos (writers h w)))
      in writer_update h1 w (\<lambda>wr. wr\<lparr>m_pos := 0\<rparr>))"

text \<open>
  \<open>pbf_length_type(m_data->size() - m_pos)\<close> truncates the unsigned difference to 32
  bits, which is the difference of the truncated operands.
\<close>

definition commit_submessage :: "heap \<Rightarrow> writer_ptr \<Rightarrow> heap" where
  "commit_submessage h w =
     (let pos = m_pos (writers h w);
          len = (of_nat (length (buffer h w)) - of_nat pos :: pbf_length_type);
          bytes = write_varint (ucast len);
          n = length bytes;
          h1 = string_update h w (\<lambda>s. string_write_at s (pos - reserve_bytes) bytes);
          h2 = string_update h1 w (\<lambda>s. string_erase s (pos - reserve_bytes + n) pos)
      in writer_update h2 w (\<lambda>wr. wr\<lparr>m_pos := 0\<rparr>))"

text \<open>
  \<open>m_data->size() - m_pos == 0\<close> on unsigned operands holds exactly when they are equal.
\<close>

definition close_submessage :: "heap \<Rightarrow> writer_ptr \<Rightarrow> heap" where
  "close_submessage h w =
     (if m_pos (writers h w) = 0 \<or> m_rollback_pos (writers h w) = size_is_known then h
      else if length (buffer h w) = m_pos (writers h w) then rollback_submessage h w
      else commit_submessage h w)"

text \<open>
  The constructors write a new writer object at the address \<open>this\<close>;
  \<open>pbf_writer(pbf_writer& parent_writer, pbf_tag_type tag, std::size_t size=0)\<close> then opens
  the submessage on the parent.  The destructor closes it there.
\<close>

definition pbf_writer_new :: "heap \<Rightarrow> writer_ptr \<Rightarrow> string_ptr \<Rightarrow> heap" where
  "pbf_writer_new h this s =
     h\<lparr>writers := (writers h)(this :=
          \<lparr>m_data_w = s, m_parent_writer = None, m_rollback_pos = 0, m_pos = 0\<rparr>)\<rparr>"

definition pbf_writer_sub :: "heap \<Rightarrow> writer_ptr \<Rightarrow> writer_ptr \<Rightarrow> pbf_tag_type \<Rightarrow> nat \<Rightarrow> heap" where
  "pbf_writer_sub h this parent_writer tg sz =
     (let h1 = h\<lparr>writers := (writers h)(this :=
                  \<lparr>m_data_w = m_data_w (writers h parent_writer),
                   m_parent_writer = Some parent_writer, m_rollback_pos = 0, m_pos = 0\<rparr>)\<rparr>
      in open_submessage h1 parent_writer tg sz)"

definition destructor :: "heap \<Rightarrow> writer_ptr \<Rightarrow> heap" where
  "destructor h this =
     (case m_parent_writer (writers h this) of
        None \<Rightarrow> h
      | Some p \<Rightarrow> close_submessage h p)"

text \<open>
  The overloads of \<open>add_impl\<close>, one per dispatch tag.  The value is passed as the 64-bit
  two's complement value of the C++ argument (sign-extended from a signed \<open>T\<close>),
  which is what \<open>uint64_t(value)\<close> and the call \<open>encode_zigzag64(value)\<close> make of it.
\<close>

definition add_impl_varint :: "heap \<Rightarrow> writer_ptr \<Rightarrow> uint64_t \<Rightarrow> heap" where
  "add_impl_varint h w v = string_append h w (write_varint v)"

definition add_impl_bool :: "heap \<Rightarrow> writer_ptr \<Rightarrow> uint64_t \<Rightarrow> heap" where
  "add_impl_bool h w v = string_append h w (replicate 1 (ucast v))"

definition add_impl_svarint :: "heap \<Rightarrow> writer_ptr \<Rightarrow> int64_t \<Rightarrow> heap" where
  "add_impl_svarint h w v = string_append h w (write_varint (encode_zigzag64 v))"

definition add_impl_fixed :: "nat \<Rightarrow> heap \<Rightarrow> writer_ptr \<Rightarrow> uint64_t \<Rightarrow> heap" where
  "add_impl_fixed sz h w v = add_fixed sz h w v"

definition add_impl_length_delimited :: "heap \<Rightarrow> writer_ptr \<Rightarrow> byte list \<Rightarrow> heap" where
  "add_impl_length_delimited h w bs =
     (let h1 = add_varint h w (ucast (of_nat (length bs) :: pbf_length_type))
      in string_append h1 w bs)"

text \<open>Scalar field writers: \<open>add<T>(tag, value)\<close> is \<open>add_field\<close>, then \<open>add_impl\<close>.\<close>

definition add_bool :: "heap \<Rightarrow> writer_ptr \<Rightarrow> pbf_tag_type \<Rightarrow> bool \<Rightarrow> heap" where
  "add_bool h w tg v = add_impl_bool (add_field h w tg varint) w (if v then 1 else 0)"

definition add_uint64 :: "heap \<Rightarrow> writer_ptr \<Rightarrow> pbf_tag_type \<Rightarrow> uint64_t \<Rightarrow> heap" where
  "add_uint64 h w tg v = add_impl_varint (add_field h w tg varint) w v"

definition add_int32 :: "heap \<Rightarrow> writer_ptr \<Rightarrow> pbf_tag_type \<Rightarrow> int32_t \<Rightarrow> heap" where
  "add_int32 h w tg v = add_impl_varint (add_field h w tg varint) w (scast v)"

definition add_sint32 :: "heap \<Rightarrow> writer_ptr \<Rightarrow> pbf_tag_type \<Rightarrow> int32_t \<Rightarrow> heap" where
  "add_sint32 h w tg v = add_impl_svarint (add_field h w tg varint) w (scast v)"

definition add_sint64 :: "heap \<Rightarrow> writer_ptr \<Rightarrow> pbf_tag_type \<Rightarrow> int64_t \<Rightarrow> heap" where
  "add_sint64 h w tg v = add_impl_svarint (add_field h w tg varint) w v"

definition add_fixed32 :: "heap \<Rightarrow> writer_ptr \<Rightarrow> pbf_tag_type \<Rightarrow> uint32_t \<Rightarrow> heap" where
  "add_fixed32 h w tg v = add_impl_fixed 4 (add_field h w tg fixed32) w (ucast v)"

definition add_bytes :: "heap \<Rightarrow> writer_ptr \<Rightarrow> pbf_tag_type \<Rightarrow> byte list \<Rightarrow> heap" where
  "add_bytes h w tg bs = add_impl_length_delimited (add_field h w tg length_delimited) w bs"

text \<open>
  Packed fields.  The iterator range \<open>[first, last)\<close> is the list of its elements;
  \<open>first == last\<close> is the empty list.  \<open>add_elem\<close> is the overload of \<open>add_impl\<close> the
  template selects, \<open>fixed_length\<close> the value of \<open>fixed_length<G, C>::value\<close>, \<open>sz\<close> is
  \<open>sizeof(typename T::type)\<close>, and \<open>sw\<close> the address of the local writer of the
  submessage.
\<close>

definition add_packed_impl_sub ::
  "(heap \<Rightarrow> writer_ptr \<Rightarrow> 'a \<Rightarrow> heap) \<Rightarrow> heap \<Rightarrow> writer_ptr \<Rightarrow> writer_ptr \<Rightarrow> pbf_tag_type \<Rightarrow> 'a list \<Rightarrow> heap" where
  "add_packed_impl_sub add_elem h writer sw tg xs =
     (let h1 = pbf_writer_sub h sw writer tg 0;
          h2 = foldl (\<lambda>h' x. add_elem h' sw x) h1 xs
      in destructor h2 sw)"

definition add_packed_impl_fixed ::
  "(heap \<Rightarrow> writer_ptr \<Rightarrow> 'a \<Rightarrow> heap) \<Rightarrow> nat \<Rightarrow> heap \<Rightarrow> writer_ptr \<Rightarrow> pbf_tag_type \<Rightarrow> 'a list \<Rightarrow> heap" where
  "add_packed_impl_fixed add_elem sz h writer tg xs =
     (let len = length xs;
          h1 = add_length_varint h writer tg
                 (of_nat (sz * unat (of_nat len :: pbf_length_type)));
          h2 = reserve h1 writer (sz * len)
      in foldl (\<lambda>h' x. add_elem h' writer x) h2 xs)"

definition add_packed ::
  "(heap \<Rightarrow> writer_ptr \<Rightarrow> 'a \<Rightarrow> heap) \<Rightarrow> bool \<Rightarrow> nat \<Rightarrow> heap \<Rightarrow> writer_ptr \<Rightarrow> writer_ptr \<Rightarrow> pbf_tag_type \<Rightarrow> 'a list \<Rightarrow> heap" where
  "add_packed add_elem fixed_length sz h w sw tg xs =
     (if xs = [] then h
      else if fixed_length then add_packed_impl_fixed add_elem sz h w tg xs
      else add_packed_impl_sub add_elem h w sw tg xs)"

definition add_packed_sint32 :: "heap \<Rightarrow> writer_ptr \<Rightarrow> writer_ptr \<Rightarrow> pbf_tag_type \<Rightarrow> int32_t list \<Rightarrow> heap" where
  "add_packed_sint32 h w sw tg xs =
     add_packed (\<lambda>h' w' x. add_impl_svarint h' w' (scast x)) False 4 h w sw tg xs"

definition add_packed_uint64 :: "heap \<Rightarrow> writer_ptr \<Rightarrow> writer_ptr \<Rightarrow> pbf_tag_type \<Rightarrow> uint64_t list \<Rightarrow> heap" where
  "add_packed_uint64 h w sw tg xs = add_packed add_impl_varint False 8 h w sw tg xs"

definition add_packed_fixed32 ::
  "bool \<Rightarrow> heap \<Rightarrow> writer_ptr \<Rightarrow> writer_ptr \<Rightarrow> pbf_tag_type \<Rightarrow> uint32_t list \<Rightarrow> heap" where
  "add_packed_fixed32 forward_iterator h w sw tg xs =
     add_packed (\<lambda>h' w' x. add_impl_fixed 4 h' w' (ucast x)) forward_iterator 4 h w sw tg xs"

section \<open>Scenarios\<close>

text \<open>
  Writing one submessage through a child writer at the address \<open>c\<close> of the parent at
  \<open>p\<close>: the child is constructed, the payload bytes are appended through it, and it is
  destroyed.  On the known-size path the child is constructed with the exact size of the
  payload, on the unknown-size path with the default size 0.
\<close>

definition submessage_known_size :: "heap \<Rightarrow> writer_ptr \<Rightarrow> writer_ptr \<Rightarrow> pbf_tag_type \<Rightarrow> byte list \<Rightarrow> heap" where
  "submessage_known_size h p c tg payload =
     (let h1 = pbf_writer_sub h c p tg (length payload);
          h2 = string_append h1 c payload
      in destructor h2 c)"

definition submessage_unknown_size :: "heap \<Rightarrow> writer_ptr \<Rightarrow> writer_ptr \<Rightarrow> pbf_tag_type \<Rightarrow> byte list \<Rightarrow> heap" where
  "submessage_unknown_size h p c tg payload =
     (let h1 = pbf_writer_sub h c p tg 0;
          h2 = string_append h1 c payload
      in destructor h2 c)"

text \<open>
  A store whose strings are all empty, and in it a top-level writer at address 0 on the
  string at address 0: \<open>std::string buffer; pbf_writer pw(buffer);\<close>
\<close>

definition empty_heap :: heap where
  "empty_heap =
     \<lparr>strings = (\<lambda>a. []),
      writers = (\<lambda>a. \<lparr>m_data_w = 0, m_parent_writer = None, m_rollback_pos = 0, m_pos = 0\<rparr>)\<rparr>"

definition root_heap :: heap where
  "root_heap = pbf_writer_new empty_heap 0 0"

text \<open>
  Example messages: a \<open>fixed32\<close> field with tag 1 and value 12345678; a string field with
  tag 1 that announces five bytes and holds one; a varint field with tag 1 whose payload is
  the two-byte varint \<open>80 00\<close> of the value 0, and one whose payload is the two-byte varint
  \<open>80 01\<close> of the value 128; a field header with tag 1 and wire type 3.
\<close>

definition fixed32_field :: "byte list" where
  "fixed32_field = [0x0D, 0x4E, 0x61, 0xBC, 0x00]"

definition truncated_string_field :: "byte list" where
  "truncated_string_field = [0x0A, 0x05, 0x61]"

definition two_byte_zero_field :: "byte list" where
  "two_byte_zero_field = [0x08, 0x80, 0x00]"

definition two_byte_bool_field :: "byte list" where
  "two_byte_bool_field = [0x08, 0x80, 0x01]"

text \<open>
  The payload of scenario 3 of the specification: a string field with tag 1 and the value
  "foobar".
\<close>

definition foobar_payload :: "byte list" where
  "foobar_payload = [0x0A, 0x06, 0x66, 0x6F, 0x6F, 0x62, 0x61, 0x72]"

definition start_group_field :: "byte list" where
  "start_group_field = [0x0B]"

section \<open>Properties of the codec\<close>

lemma neg_and1: "- ((u::64 word) AND 1) = (if bit u 0 then -1 else 0)"
  by (simp add: and_one_eq bit_0 mod2_eq_if)

lemma bit_encode_zigzag64: "k < 64 \<Longrightarrow> bit (encode_zigzag64 n) k = (if k = 0 then bit n 63 else bit n (k-1) \<noteq> bit n 63)"
  unfolding encode_zigzag64_def
  apply (simp only: bit_xor_iff bit_push_bit_iff bit_signed_drop_bit_iff)
  apply (cases "k = 0")
   apply (simp_all add: possible_bit_word)
  done

lemma bit_decode_zigzag64: "k < 64 \<Longrightarrow> bit (decode_zigzag64 u) k = (if k = 63 then bit u 0 else bit u (k+1) \<noteq> bit u 0)"
  unfolding decode_zigzag64_def neg_and1
  apply (simp only: bit_xor_iff bit_drop_bit_eq)
  apply (cases "bit u 0")
   apply (simp_all add: possible_bit_word)
   apply (auto dest: bit_imp_le_length)
  done

lemma decode_encode_zigzag64: "decode_zigzag64 (encode_zigzag64 i) = i"
  apply (rule bit_word_eqI)
  apply (auto simp add: bit_encode_zigzag64 bit_decode_zigzag64)
  done

lemma encode_decode_zigzag64: "encode_zigzag64 (decode_zigzag64 i) = i"
  apply (rule bit_word_eqI)
  apply (auto simp add: bit_encode_zigzag64 bit_decode_zigzag64)
  done

lemma signed_drop_bit_63: "signed_drop_bit 63 (n::64 word) = (if bit n 63 then - 1 else 0)"
proof (rule bit_word_eqI)
  fix k :: nat
  assume k: "k < LENGTH(64)"
  show "bit (signed_drop_bit 63 n) k = bit (if bit n 63 then - 1 else 0 :: 64 word) k"
    using k by (cases "k = 0") (simp_all add: bit_signed_drop_bit_iff)
qed

lemma mask_7f: "(0x7f :: 'a::len word) = mask 7"
  by (simp add: mask_eq_exp_minus_1)

lemma bit_128_8: "bit (0x80 :: 8 word) n \<longleftrightarrow> n = 7"
proof -
  have "(0x80 :: 8 word) = 2 ^ 7" by simp
  then show ?thesis by (simp only: bit_exp_iff) (auto simp add: possible_bit_word)
qed

lemma low_seven_bits: "ucast ((ucast ((v::64 word) AND 0x7f) OR (0x80::8 word)) AND 0x7f) = (v AND mask 7 :: 64 word)"
proof -
  have a: "(x OR 0x80) AND 0x7f = x AND (0x7f::8 word)" for x
    by (simp add: bit.conj_disj_distrib2)
  show ?thesis
    unfolding a unfolding mask_7f
    by (rule bit_word_eqI) (auto simp add: bit_simps)
qed

lemma continuation_bit: "bit (ucast ((v::64 word) AND 0x7f) OR (0x80::8 word)) 7"
  by (simp add: bit_or_iff bit_128_8)

lemma low_or_high: "((v::64 word) AND mask 7) OR push_bit 7 (drop_bit 7 v) = v"
proof (rule bit_word_eqI)
  fix n :: nat
  assume "n < LENGTH(64)"
  show "bit (v AND mask 7 OR push_bit 7 (drop_bit 7 v)) n = bit v n"
    using \<open>n < LENGTH(64)\<close> by (cases "n < 7") (auto simp add: bit_simps)
qed

lemma push_bit_groups: "push_bit (7 * k) ((v::64 word) AND mask 7) OR push_bit (7 * Suc k) (drop_bit 7 v) = push_bit (7 * k) v"
proof -
  have "push_bit (7 * k) ((v AND mask 7) OR push_bit 7 (drop_bit 7 v)) = push_bit (7 * k) v"
    by (simp only: low_or_high)
  then show ?thesis
    by (simp add: push_bit_or push_bit_push_bit add.commute)
qed

lemma small_byte:
  assumes "(v::64 word) < 0x80"
  shows "\<not> bit (ucast v :: 8 word) 7" and "(ucast (ucast v :: 8 word) :: 64 word) = v"
proof -
  have "v < 2 ^ 7" using assms by simp
  then have "v AND mask 7 = v" by (rule less_mask_eq)
  then have tb: "take_bit 7 v = v" by (simp add: take_bit_eq_mask)
  have b: "bit v n \<Longrightarrow> n < 7" for n
  proof -
    assume "bit v n"
    then have "bit (take_bit 7 v) n" by (simp only: tb)
    then show "n < 7" by (simp add: bit_take_bit_iff)
  qed
  show "\<not> bit (ucast v :: 8 word) 7" using b[of 7] by (auto simp add: bit_simps)
  show "(ucast (ucast v :: 8 word) :: 64 word) = v"
    by (rule bit_word_eqI) (auto simp add: bit_simps dest: b)
qed

lemma write_varint_small: "v < 0x80 \<Longrightarrow> write_varint v = [ucast v]"
  by (simp add: write_varint.simps[of v] not_le[symmetric])

lemma write_varint_nonempty: "write_varint v \<noteq> []"
  by (subst write_varint.simps) simp

lemma write_varint_length_pos: "0 < length (write_varint v)"
  using write_varint_nonempty[of v] by simp

lemma write_varint_length_le:
  "unat v < 2 ^ (7 * n) \<Longrightarrow> 0 < n \<Longrightarrow> length (write_varint v) \<le> n"
proof (induction v arbitrary: n rule: write_varint.induct)
  case (1 v)
  show ?case
  proof (cases "v \<ge> 0x80")
    case True
    then have "128 \<le> unat v" by (simp add: word_le_nat_alt)
    have n1: "1 < n"
    proof (rule ccontr)
      assume "\<not> 1 < n"
      with 1(3) have "n = 1" by simp
      with 1(2) \<open>128 \<le> unat v\<close> show False by simp
    qed
    then obtain m where m: "n = Suc m" "0 < m" by (cases n) auto
    have "unat v < 2 ^ (7 * m) * 2 ^ 7" using 1(2) m by (simp add: power_add)
    then have "unat v div 2 ^ 7 < 2 ^ (7 * m)" by (rule less_mult_imp_div_less)
    then have "unat (drop_bit 7 v) < 2 ^ (7 * m)" by (simp add: drop_bit_eq_div unat_div)
    from 1(1)[OF True this m(2)] show ?thesis
      using True m by (subst write_varint.simps) simp
  next
    case False
    then show ?thesis using 1(3) by (subst write_varint.simps) simp
  qed
qed

lemma write_varint_length32: "length (write_varint (ucast (w :: 32 word))) \<le> 5"
proof -
  have "unat w < 2 ^ 32" using unsigned_less[of w] by simp
  moreover from this have "unat w < 2 ^ 64" by simp
  then have "take_bit 64 (unat w) = unat w" by (rule take_bit_nat_eq_self)
  then have "unat (ucast w :: 64 word) = unat w"
    by (simp add: unsigned_ucast_eq)
  ultimately have "unat (ucast w :: 64 word) < 2 ^ (7 * 5)" by simp
  then show ?thesis by (rule write_varint_length_le) simp
qed

lemma unat_length32:
  "n < 2 ^ 32 \<Longrightarrow> unat (ucast (of_nat n :: pbf_length_type) :: uint64_t) = n"
proof -
  assume a: "n < 2 ^ 32"
  then have "unat (of_nat n :: pbf_length_type) = n"
    by (simp add: unat_of_nat)
  moreover from a have "n < 2 ^ 64" by simp
  then have "take_bit 64 n = n" by (rule take_bit_nat_eq_self)
  ultimately show ?thesis by (simp add: unsigned_ucast_eq)
qed

lemma decode_varint_from_write_varint: "unat v < 2 ^ (64 - 7 * k) \<Longrightarrow> k \<le> 9 \<Longrightarrow> decode_varint_from k (write_varint v @ rest) = Inr (push_bit (7 * k) v, k + length (write_varint v))"
proof (induction v arbitrary: k rule: write_varint.induct)
  case (1 v)
  show ?case
  proof (cases "v \<ge> 0x80")
    case True
    have k8: "k < 9" using True 1(2,3) by (cases "k = 9") (auto simp add: word_le_nat_alt)
    have "64 - 7 * k = (57 - 7 * k) + 7" using k8 by simp
    then have e: "(2::nat) ^ (64 - 7 * k) = 2 ^ (57 - 7 * k) * 2 ^ 7"
      by (simp only: power_add)
    have "unat v < 2 ^ (57 - 7 * k) * 2 ^ 7" using 1(2) by (simp only: e)
    then have "unat v div 2 ^ 7 < 2 ^ (57 - 7 * k)" by (rule less_mult_imp_div_less)
    then have sm: "unat (drop_bit 7 v) < 2 ^ (64 - 7 * Suc k)"
      by (simp add: drop_bit_eq_div unat_div)
    show ?thesis
      apply (subst write_varint.simps)
      apply (subst (2) write_varint.simps)
      using True k8 1(1)[OF True sm] push_bit_groups[of k v]
      apply (simp add: continuation_bit low_seven_bits)
    done
  next
    case False
    then show ?thesis 
      apply (subst write_varint.simps)
      apply (subst (2) write_varint.simps)
      apply (simp add: small_byte)
      done
  qed
qed

lemma decode_write_varint:
  "decode_varint_from 0 (write_varint v @ rest) = Inr (v, length (write_varint v))"
  using decode_varint_from_write_varint[of v 0 rest] unsigned_less[of v] by simp

lemma seven_bit_byte: "\<not> bit (b :: byte) 7 \<Longrightarrow> bit b i \<Longrightarrow> i < 7"
proof -
  assume a: "\<not> bit b 7" "bit b i"
  from a(2) have "i < 8" by (auto dest: bit_imp_le_length)
  with a show "i < 7" by (cases "i = 7") auto
qed

lemma decode_varint_from_bits:
  "decode_varint_from k bs = Inr (v, n) \<Longrightarrow> k < n \<and> (\<forall>i. bit v i \<longrightarrow> i < 7 * n)"
proof (induction bs arbitrary: k v n)
  case Nil
  then show ?case by simp
next
  case (Cons b bs)
  show ?case
  proof (cases "bit b 7")
    case False
    with Cons.prems have v: "v = push_bit (7 * k) (ucast b)" and n: "n = Suc k" by auto
    have "i < 7 * n" if "bit v i" for i
    proof -
      from that v have "7 * k \<le> i" "bit b (i - 7 * k)" by (auto simp add: bit_simps)
      with False have "i - 7 * k < 7" by (auto dest: seven_bit_byte)
      with \<open>7 * k \<le> i\<close> n show ?thesis by simp
    qed
    with n show ?thesis by simp
  next
    case True
    with Cons.prems have k: "\<not> 9 \<le> k" by (auto split: if_splits)
    from True k Cons.prems obtain v' where d: "decode_varint_from (Suc k) bs = Inr (v', n)"
      and v: "v = push_bit (7 * k) (ucast (b AND 0x7f)) OR v'"
      by (auto split: sum.splits)
    from Cons.IH[OF d] have n: "Suc k < n" and b: "\<And>i. bit v' i \<Longrightarrow> i < 7 * n" by auto
    have "i < 7 * n" if "bit v i" for i
    proof -
      from that v have "bit (push_bit (7 * k) (ucast (b AND 0x7f) :: 64 word)) i \<or> bit v' i"
        by (simp add: bit_or_iff)
      then show ?thesis
      proof
        assume "bit (push_bit (7 * k) (ucast (b AND 0x7f) :: 64 word)) i"
        then have "7 * k \<le> i" "bit (b AND mask 7) (i - 7 * k)"
          by (auto simp add: bit_simps mask_7f)
        then have "i - 7 * k < 7" by (simp add: bit_simps)
        with \<open>7 * k \<le> i\<close> n show ?thesis by simp
      next
        assume "bit v' i"
        then show ?thesis by (rule b)
      qed
    qed
    with n show ?thesis by simp
  qed
qed

lemma bits_below_imp_less:
  assumes "\<And>i. bit (v :: 64 word) i \<Longrightarrow> i < m"
  shows "unat v < 2 ^ m"
proof -
  have "take_bit m v = v"
    by (rule bit_word_eqI) (auto simp add: bit_simps dest: assms)
  then have "unat v = unat (take_bit m v)" by simp
  also have "\<dots> = take_bit m (unat v)" by (simp add: unsigned_take_bit_eq)
  also have "\<dots> < 2 ^ m" by (rule take_bit_nat_less_exp)
  finally show ?thesis .
qed

lemma write_varint_minimal:
  assumes "decode_varint_from 0 bs = Inr (v, n)"
  shows "length (write_varint v) \<le> n"
proof -
  from decode_varint_from_bits[OF assms] have n: "0 < n" and b: "\<And>i. bit v i \<Longrightarrow> i < 7 * n"
    by auto
  from b have "unat v < 2 ^ (7 * n)" by (rule bits_below_imp_less)
  then show ?thesis using n by (rule write_varint_length_le)
qed

section \<open>Properties of the writer\<close>

lemma reserve_bytes_eq: "reserve_bytes = 5"
  by (simp add: reserve_bytes_def sizeof_pbf_length_type_def)

lemma replicate_5: "replicate 5 x = [x, x, x, x, x]"
  by (simp add: eval_nat_numeral)

lemma length_delimited_header: "push_bit 3 tg OR length_delimited = push_bit 3 tg OR (2 :: uint32_t)"
  by (simp add: length_delimited_def)

lemma commit_bytes:
  "length bytes \<le> k \<Longrightarrow>
   string_erase (string_write_at (pre @ replicate k 0 @ payload) (length pre) bytes)
     (length pre + length bytes) (length pre + k) = pre @ bytes @ payload"
  by (simp add: string_erase_def string_write_at_def)

lemmas heap_defs = buffer_def string_update_def writer_update_def string_append_def
  add_varint_def add_field_def add_length_varint_def reserve_def Let_def

lemma root_heap_simps:
  "buffer root_heap 0 = []" "writers root_heap 0 = \<lparr>m_data_w = 0, m_parent_writer = None, m_rollback_pos = 0, m_pos = 0\<rparr>"
  "strings root_heap = (\<lambda>a. [])"
  by (simp_all add: root_heap_def empty_heap_def pbf_writer_new_def buffer_def)

lemma open_submessage_unknown:
  "open_submessage h w tg 0 =
     h\<lparr>strings := (strings h)(m_data_w (writers h w) :=
          buffer h w @ write_varint (ucast (push_bit 3 tg OR length_delimited))
            @ replicate reserve_bytes 0),
       writers := (writers h)(w := (writers h w)
         \<lparr>m_rollback_pos := length (buffer h w),
          m_pos := length (buffer h w)
                   + length (write_varint (ucast (push_bit 3 tg OR length_delimited)))
                   + reserve_bytes\<rparr>)\<rparr>"
  by (simp add: open_submessage_def heap_defs add.assoc)

lemma open_submessage_known:
  "sz \<noteq> 0 \<Longrightarrow> open_submessage h w tg sz =
     h\<lparr>strings := (strings h)(m_data_w (writers h w) :=
          buffer h w @ write_varint (ucast (push_bit 3 tg OR length_delimited))
            @ write_varint (ucast (of_nat sz :: pbf_length_type))),
       writers := (writers h)(w := (writers h w)
         \<lparr>m_rollback_pos := size_is_known,
          m_pos := length (buffer h w)
                   + length (write_varint (ucast (push_bit 3 tg OR length_delimited)))
                   + length (write_varint (ucast (of_nat sz :: pbf_length_type)))\<rparr>)\<rparr>"
  by (simp add: open_submessage_def heap_defs add.assoc)

lemma pbf_writer_sub_unknown:
  assumes "c \<noteq> p"
  shows "buffer (pbf_writer_sub h c p tg 0) p =
           buffer h p @ write_varint (ucast (push_bit 3 tg OR length_delimited))
             @ replicate reserve_bytes 0"
    and "m_rollback_pos (writers (pbf_writer_sub h c p tg 0) p) = length (buffer h p)"
    and "m_pos (writers (pbf_writer_sub h c p tg 0) p) =
           length (buffer (pbf_writer_sub h c p tg 0) p)"
    and "m_parent_writer (writers (pbf_writer_sub h c p tg 0) c) = Some p"
    and "m_data_w (writers (pbf_writer_sub h c p tg 0) c) = m_data_w (writers h p)"
    and "m_data_w (writers (pbf_writer_sub h c p tg 0) p) = m_data_w (writers h p)"
  using assms by (simp_all add: pbf_writer_sub_def open_submessage_unknown buffer_def)

lemma rollback_strings:
  assumes "c \<noteq> p" and "length (buffer h p) \<noteq> size_is_known"
  shows "strings (close_submessage (pbf_writer_sub h c p tg 0) p) = strings h"
  using assms
  by (simp add: close_submessage_def rollback_submessage_def pbf_writer_sub_def
      open_submessage_unknown heap_defs string_resize_def reserve_bytes_eq)

lemma unknown_size_strings:
  assumes "c \<noteq> p" and "length (buffer h p) \<noteq> size_is_known" and "payload \<noteq> []"
  shows "strings (submessage_unknown_size h p c tg payload) =
    (strings h)(m_data_w (writers h p) :=
       buffer h p @ write_varint (ucast (push_bit 3 tg OR length_delimited))
         @ write_varint (ucast (of_nat (length payload) :: pbf_length_type)) @ payload)"
proof -
  let ?hdr = "write_varint (ucast (push_bit 3 tg OR length_delimited))"
  let ?len = "write_varint (ucast (of_nat (length payload) :: pbf_length_type))"
  have n: "length ?len \<le> 5" by (rule write_varint_length32)
  have cb: "string_erase (string_write_at ((buffer h p @ ?hdr) @ replicate 5 0 @ payload)
              (length (buffer h p @ ?hdr)) ?len)
              (length (buffer h p @ ?hdr) + length ?len) (length (buffer h p @ ?hdr) + 5)
            = (buffer h p @ ?hdr) @ ?len @ payload"
    using n by (rule commit_bytes)
  show ?thesis
    using assms cb
    by (simp add: submessage_unknown_size_def destructor_def close_submessage_def
        commit_submessage_def pbf_writer_sub_def
        open_submessage_unknown heap_defs reserve_bytes_eq)
qed

lemma unknown_size_m_data:
  "c \<noteq> p \<Longrightarrow>
   m_data_w (writers (submessage_unknown_size h p c tg payload) p) = m_data_w (writers h p)"
  by (simp add: submessage_unknown_size_def destructor_def close_submessage_def
      commit_submessage_def rollback_submessage_def pbf_writer_sub_def
      open_submessage_unknown heap_defs)

lemma known_size_strings:
  assumes "c \<noteq> p" and "payload \<noteq> []"
  shows "strings (submessage_known_size h p c tg payload) =
    (strings h)(m_data_w (writers h p) :=
       buffer h p @ write_varint (ucast (push_bit 3 tg OR length_delimited))
         @ write_varint (ucast (of_nat (length payload) :: pbf_length_type)) @ payload)"
  using assms
  by (simp add: submessage_known_size_def destructor_def close_submessage_def
      pbf_writer_sub_def open_submessage_known heap_defs)

lemma known_size_m_data:
  "c \<noteq> p \<Longrightarrow>
   m_data_w (writers (submessage_known_size h p c tg payload) p) = m_data_w (writers h p)"
  by (simp add: submessage_known_size_def destructor_def close_submessage_def
      commit_submessage_def rollback_submessage_def pbf_writer_sub_def
      open_submessage_def heap_defs)

lemma close_open_unknown_strings:
  assumes "length (buffer h w) \<noteq> size_is_known" and "payload \<noteq> []"
  shows "strings (close_submessage (string_append (open_submessage h w tg 0) w payload) w) =
    (strings h)(m_data_w (writers h w) :=
       buffer h w @ write_varint (ucast (push_bit 3 tg OR length_delimited))
         @ write_varint (ucast (of_nat (length payload) :: pbf_length_type)) @ payload)"
proof -
  let ?hdr = "write_varint (ucast (push_bit 3 tg OR length_delimited))"
  let ?len = "write_varint (ucast (of_nat (length payload) :: pbf_length_type))"
  have n: "length ?len \<le> 5" by (rule write_varint_length32)
  have cb: "string_erase (string_write_at ((buffer h w @ ?hdr) @ replicate 5 0 @ payload)
              (length (buffer h w @ ?hdr)) ?len)
              (length (buffer h w @ ?hdr) + length ?len) (length (buffer h w @ ?hdr) + 5)
            = (buffer h w @ ?hdr) @ ?len @ payload"
    using n by (rule commit_bytes)
  show ?thesis
    using assms cb
    by (simp add: close_submessage_def commit_submessage_def
        open_submessage_unknown heap_defs reserve_bytes_eq)
qed

lemma close_open_m_data:
  "m_data_w (writers (close_submessage (string_append (open_submessage h w tg 0) w payload) w) w)
     = m_data_w (writers h w)"
  by (simp add: close_submessage_def commit_submessage_def rollback_submessage_def
      open_submessage_unknown heap_defs)

text \<open>
  C2, as the code has it.  Opening a submessage of unknown size appends the field header
  \<open>(tag << 3) | 2\<close> and then exactly \<open>reserve_bytes = 5\<close> zero bytes as the placeholder of
  the length; the rollback anchor \<open>m_rollback_pos\<close> is the size of the buffer before the
  header and the data anchor \<open>m_pos\<close> is its size after the placeholder.
\<close>

theorem open_submessage_placeholder:
  "buffer (open_submessage h w tg 0) w =
     buffer h w @ write_varint (ucast (push_bit 3 tg OR (2 :: uint32_t))) @ replicate 5 0 \<and>
   m_rollback_pos (writers (open_submessage h w tg 0) w) = length (buffer h w) \<and>
   m_pos (writers (open_submessage h w tg 0) w) = length (buffer (open_submessage h w tg 0) w)"
  by (simp add: open_submessage_unknown buffer_def reserve_bytes_eq length_delimited_header)

theorem open_submessage_placeholder_witness:
  "buffer (open_submessage root_heap 0 1 0) 0 = [0x0A, 0, 0, 0, 0, 0] \<and>
   m_rollback_pos (writers (open_submessage root_heap 0 1 0) 0) = 0 \<and>
   m_pos (writers (open_submessage root_heap 0 1 0) 0) = 6"
  using open_submessage_placeholder[of root_heap 0 1]
  by (simp add: root_heap_simps write_varint_small replicate_5)

text \<open>
  C2 as stated, with a placeholder of 10 zero bytes, fails on the empty buffer with tag 1.
\<close>

theorem open_submessage_ten_zero_bytes_counterexample:
  "buffer (open_submessage root_heap 0 1 0) 0 \<noteq>
     buffer root_heap 0 @ write_varint (ucast (push_bit 3 (1 :: pbf_tag_type) OR (2 :: uint32_t)))
       @ replicate 10 0"
  by (simp add: open_submessage_unknown buffer_def reserve_bytes_eq root_heap_simps
      length_delimited_def write_varint_small)

text \<open>
  C5.  Closing a submessage of unknown size when the buffer ends at the data anchor
  resizes the buffer to the rollback anchor.  So constructing a child writer of unknown
  size and closing or destroying it at once leaves every string of the store, the parent's
  buffer among them, as it was before the child was constructed.  The parent's buffer is
  assumed shorter than \<open>SIZE_MAX\<close> bytes, the value of the sentinel \<open>size_is_known\<close>, and
  the child is an object of its own.
\<close>

theorem close_empty_submessage_rolls_back:
  "(m_pos (writers h w) \<noteq> 0 \<and> m_rollback_pos (writers h w) \<noteq> size_is_known
      \<and> length (buffer h w) = m_pos (writers h w)
    \<longrightarrow> buffer (close_submessage h w) w = string_resize (buffer h w) (m_rollback_pos (writers h w))
        \<and> length (buffer (close_submessage h w) w) = m_rollback_pos (writers h w)) \<and>
   (c \<noteq> p \<and> length (buffer h p) \<noteq> size_is_known
    \<longrightarrow> strings (close_submessage (pbf_writer_sub h c p tg 0) p) = strings h
        \<and> strings (destructor (pbf_writer_sub h c p tg 0) c) = strings h)"
proof (intro conjI impI)
  assume a: "m_pos (writers h w) \<noteq> 0 \<and> m_rollback_pos (writers h w) \<noteq> size_is_known
      \<and> length (buffer h w) = m_pos (writers h w)"
  then show "buffer (close_submessage h w) w = string_resize (buffer h w) (m_rollback_pos (writers h w))"
    by (simp add: close_submessage_def rollback_submessage_def heap_defs)
  then show "length (buffer (close_submessage h w) w) = m_rollback_pos (writers h w)"
    by (simp add: string_resize_def)
next
  assume a: "c \<noteq> p \<and> length (buffer h p) \<noteq> size_is_known"
  then show "strings (close_submessage (pbf_writer_sub h c p tg 0) p) = strings h"
    by (simp add: rollback_strings)
  with a show "strings (destructor (pbf_writer_sub h c p tg 0) c) = strings h"
    by (simp add: destructor_def pbf_writer_sub_unknown)
qed

theorem close_empty_submessage_rolls_back_witness:
  "(1 :: writer_ptr) \<noteq> 0 \<and> length (buffer root_heap 0) \<noteq> size_is_known \<and>
   buffer (pbf_writer_sub root_heap 1 0 5 0) 0 = [0x2A, 0, 0, 0, 0, 0] \<and>
   strings (destructor (pbf_writer_sub root_heap 1 0 5 0) 1) = strings root_heap"
  using close_empty_submessage_rolls_back[of root_heap 0 1 0 5]
  by (simp add: root_heap_simps size_is_known_def pbf_writer_sub_unknown reserve_bytes_eq
      length_delimited_def write_varint_small replicate_5)

text \<open>
  C6.  When at least one payload byte was written into a submessage of unknown size,
  closing it leaves in the buffer the old contents, the field header, the varint of the
  number of payload bytes (as a \<open>pbf_length_type\<close>, which is that number below \<open>2^32\<close>) and
  the payload: the placeholder is overwritten and its unused bytes are erased, which moves
  the payload left.  The varint decodes to that length, and no byte sequence that decodes
  to the same value is shorter.
\<close>

theorem close_submessage_patches_length:
  assumes "c \<noteq> p" and "length (buffer h p) \<noteq> size_is_known" and "payload \<noteq> []"
  shows "buffer (submessage_unknown_size h p c tg payload) p =
           buffer h p @ write_varint (ucast (push_bit 3 tg OR (2 :: uint32_t)))
             @ write_varint (ucast (of_nat (length payload) :: pbf_length_type)) @ payload \<and>
         buffer (close_submessage (string_append (open_submessage h p tg 0) p payload) p) p =
           buffer (submessage_unknown_size h p c tg payload) p \<and>
         decode_varint_from 0 (write_varint (ucast (of_nat (length payload) :: pbf_length_type)) @ payload) =
           Inr (ucast (of_nat (length payload) :: pbf_length_type),
                length (write_varint (ucast (of_nat (length payload) :: pbf_length_type)))) \<and>
         (length payload < 2 ^ 32 \<longrightarrow>
            unat (ucast (of_nat (length payload) :: pbf_length_type) :: uint64_t) = length payload) \<and>
         (\<forall>bs n. decode_varint_from 0 bs = Inr (ucast (of_nat (length payload) :: pbf_length_type), n)
            \<longrightarrow> length (write_varint (ucast (of_nat (length payload) :: pbf_length_type))) \<le> n)"
proof (intro conjI impI allI)
  show b: "buffer (submessage_unknown_size h p c tg payload) p =
           buffer h p @ write_varint (ucast (push_bit 3 tg OR (2 :: uint32_t)))
             @ write_varint (ucast (of_nat (length payload) :: pbf_length_type)) @ payload"
    by (simp add: buffer_def unknown_size_strings[OF assms] unknown_size_m_data[OF assms(1)]
        length_delimited_def)
  show "buffer (close_submessage (string_append (open_submessage h p tg 0) p payload) p) p =
           buffer (submessage_unknown_size h p c tg payload) p"
    unfolding b
    by (simp add: buffer_def close_open_unknown_strings[OF assms(2,3)] close_open_m_data
        length_delimited_def)
  show "decode_varint_from 0 (write_varint (ucast (of_nat (length payload) :: pbf_length_type)) @ payload) =
           Inr (ucast (of_nat (length payload) :: pbf_length_type),
                length (write_varint (ucast (of_nat (length payload) :: pbf_length_type))))"
    by (rule decode_write_varint)
next
  assume "length payload < 2 ^ 32"
  then show "unat (ucast (of_nat (length payload) :: pbf_length_type) :: uint64_t) = length payload"
    by (rule unat_length32)
next
  fix bs n
  assume "decode_varint_from 0 bs = Inr (ucast (of_nat (length payload) :: pbf_length_type), n)"
  then show "length (write_varint (ucast (of_nat (length payload) :: pbf_length_type))) \<le> n"
    by (rule write_varint_minimal)
qed

theorem close_submessage_patches_length_witness:
  "(1 :: writer_ptr) \<noteq> 0 \<and> length (buffer root_heap 0) \<noteq> size_is_known \<and>
   foobar_payload \<noteq> [] \<and>
   buffer (submessage_unknown_size root_heap 0 1 5 foobar_payload) 0 =
     [0x2A, 0x08, 0x0A, 0x06, 0x66, 0x6F, 0x6F, 0x62, 0x61, 0x72]"
proof -
  have 1: "(1 :: writer_ptr) \<noteq> 0" by simp
  have 2: "length (buffer root_heap 0) \<noteq> size_is_known"
    by (simp add: root_heap_simps size_is_known_def)
  have 3: "foobar_payload \<noteq> []" by (simp add: foobar_payload_def)
  from close_submessage_patches_length[OF 1 2 3, of 5]
  have "buffer (submessage_unknown_size root_heap 0 1 5 foobar_payload) 0 =
           buffer root_heap 0 @ write_varint (ucast (push_bit 3 (5 :: uint32_t) OR (2 :: uint32_t)))
             @ write_varint (ucast (of_nat (length foobar_payload) :: pbf_length_type)) @ foobar_payload"
    by blast
  then have "buffer (submessage_unknown_size root_heap 0 1 5 foobar_payload) 0 =
     [0x2A, 0x08, 0x0A, 0x06, 0x66, 0x6F, 0x6F, 0x62, 0x61, 0x72]"
    by (simp add: root_heap_simps write_varint_small foobar_payload_def)
  with 1 2 3 show ?thesis by blast
qed

text \<open>
  C7.  For every tag and every payload, writing the submessage through a child writer
  constructed with the exact size of the payload leaves the same bytes in every string as
  writing it through a child writer of unknown size.
\<close>

theorem known_size_equals_unknown_size:
  assumes "c \<noteq> p" and "length (buffer h p) \<noteq> size_is_known"
  shows "strings (submessage_known_size h p c tg payload) =
           strings (submessage_unknown_size h p c tg payload) \<and>
         buffer (submessage_known_size h p c tg payload) p =
           buffer (submessage_unknown_size h p c tg payload) p"
proof (cases "payload = []")
  case True
  then show ?thesis
    by (simp add: submessage_known_size_def submessage_unknown_size_def)
next
  case False
  from assms(1) False
  have k: "strings (submessage_known_size h p c tg payload) =
    (strings h)(m_data_w (writers h p) :=
       buffer h p @ write_varint (ucast (push_bit 3 tg OR length_delimited))
         @ write_varint (ucast (of_nat (length payload) :: pbf_length_type)) @ payload)"
    by (rule known_size_strings)
  from assms False
  have u: "strings (submessage_unknown_size h p c tg payload) =
    (strings h)(m_data_w (writers h p) :=
       buffer h p @ write_varint (ucast (push_bit 3 tg OR length_delimited))
         @ write_varint (ucast (of_nat (length payload) :: pbf_length_type)) @ payload)"
    by (rule unknown_size_strings)
  show ?thesis
    by (simp add: buffer_def k u known_size_m_data[OF assms(1)] unknown_size_m_data[OF assms(1)])
qed

theorem known_size_equals_unknown_size_witness:
  "(1 :: writer_ptr) \<noteq> 0 \<and> length (buffer root_heap 0) \<noteq> size_is_known \<and>
   buffer (submessage_known_size root_heap 0 1 5 foobar_payload) 0 =
     buffer (submessage_unknown_size root_heap 0 1 5 foobar_payload) 0"
proof -
  have 1: "(1 :: writer_ptr) \<noteq> 0" by simp
  have 2: "length (buffer root_heap 0) \<noteq> size_is_known"
    by (simp add: root_heap_simps size_is_known_def)
  from known_size_equals_unknown_size[OF 1 2, of 5 foobar_payload] 1 2
  show ?thesis by blast
qed

text \<open>
  C9.  A packed add of an empty iterator range returns before anything is written: the
  store, and so the buffer, is what it was; no field header and no length are emitted.
\<close>

theorem add_packed_empty_range:
  "add_packed add_elem fixed_length sz h w sw tg [] = h \<and>
   buffer (add_packed add_elem fixed_length sz h w sw tg []) w = buffer h w \<and>
   add_packed_sint32 h w sw tg [] = h \<and>
   add_packed_uint64 h w sw tg [] = h \<and>
   add_packed_fixed32 forward_iterator h w sw tg [] = h"
  by (simp add: add_packed_def add_packed_sint32_def add_packed_uint64_def add_packed_fixed32_def)

text \<open>
  C10.  The size 0 means "unknown": \<open>open_submessage\<close> with size 0, and so the constructor
  of a child writer with size 0, reserves the placeholder and records the rollback anchor.
  With a size other than 0 the length is written as a varint of its natural size, the
  rollback anchor is the sentinel \<open>size_is_known\<close> and closing does nothing.  Rollback is
  disabled exactly when the size is not 0.  A child of size 0 into which nothing is written
  leaves no bytes at all, so a submessage of known size zero cannot be written this way.
\<close>

theorem size_zero_means_unknown:
  "buffer (open_submessage h w tg 0) w =
     buffer h w @ write_varint (ucast (push_bit 3 tg OR (2 :: uint32_t)))
       @ replicate reserve_bytes 0 \<and>
   m_rollback_pos (writers (open_submessage h w tg 0) w) = length (buffer h w) \<and>
   pbf_writer_sub h c w tg 0 =
     open_submessage
       (h\<lparr>writers := (writers h)(c :=
            \<lparr>m_data_w = m_data_w (writers h w), m_parent_writer = Some w,
             m_rollback_pos = 0, m_pos = 0\<rparr>)\<rparr>) w tg 0 \<and>
   (sz \<noteq> 0 \<longrightarrow>
      buffer (open_submessage h w tg sz) w =
        buffer h w @ write_varint (ucast (push_bit 3 tg OR (2 :: uint32_t)))
          @ write_varint (ucast (of_nat sz :: pbf_length_type)) \<and>
      m_rollback_pos (writers (open_submessage h w tg sz) w) = size_is_known \<and>
      close_submessage (open_submessage h w tg sz) w = open_submessage h w tg sz) \<and>
   (length (buffer h w) \<noteq> size_is_known \<longrightarrow>
      (m_rollback_pos (writers (open_submessage h w tg sz) w) = size_is_known \<longleftrightarrow> sz \<noteq> 0)) \<and>
   (c \<noteq> w \<and> length (buffer h w) \<noteq> size_is_known \<longrightarrow>
      strings (destructor (pbf_writer_sub h c w tg 0) c) = strings h)"
proof (intro conjI impI)
  show "buffer (open_submessage h w tg 0) w =
     buffer h w @ write_varint (ucast (push_bit 3 tg OR (2 :: uint32_t)))
       @ replicate reserve_bytes 0"
    by (simp add: open_submessage_unknown buffer_def length_delimited_def)
  show "m_rollback_pos (writers (open_submessage h w tg 0) w) = length (buffer h w)"
    by (simp add: open_submessage_unknown)
  show "pbf_writer_sub h c w tg 0 =
     open_submessage
       (h\<lparr>writers := (writers h)(c :=
            \<lparr>m_data_w = m_data_w (writers h w), m_parent_writer = Some w,
             m_rollback_pos = 0, m_pos = 0\<rparr>)\<rparr>) w tg 0"
    by (simp add: pbf_writer_sub_def)
next
  assume "sz \<noteq> 0"
  then show "buffer (open_submessage h w tg sz) w =
        buffer h w @ write_varint (ucast (push_bit 3 tg OR (2 :: uint32_t)))
          @ write_varint (ucast (of_nat sz :: pbf_length_type))"
    and "m_rollback_pos (writers (open_submessage h w tg sz) w) = size_is_known"
    by (simp_all add: open_submessage_known buffer_def length_delimited_def)
  then show "close_submessage (open_submessage h w tg sz) w = open_submessage h w tg sz"
    by (simp add: close_submessage_def)
next
  assume "length (buffer h w) \<noteq> size_is_known"
  then show "m_rollback_pos (writers (open_submessage h w tg sz) w) = size_is_known \<longleftrightarrow> sz \<noteq> 0"
    by (cases "sz = 0") (simp_all add: open_submessage_unknown open_submessage_known)
next
  assume "c \<noteq> w \<and> length (buffer h w) \<noteq> size_is_known"
  then show "strings (destructor (pbf_writer_sub h c w tg 0) c) = strings h"
    by (simp add: destructor_def pbf_writer_sub_unknown rollback_strings)
qed

theorem size_zero_means_unknown_witness:
  "(3 :: nat) \<noteq> 0 \<and> (1 :: writer_ptr) \<noteq> 0 \<and> length (buffer root_heap 0) \<noteq> size_is_known \<and>
   buffer (open_submessage root_heap 0 5 0) 0 = [0x2A, 0, 0, 0, 0, 0] \<and>
   buffer (open_submessage root_heap 0 5 3) 0 = [0x2A, 0x03] \<and>
   m_rollback_pos (writers (open_submessage root_heap 0 5 3) 0) = size_is_known \<and>
   m_rollback_pos (writers (open_submessage root_heap 0 5 0) 0) = 0 \<and>
   strings (destructor (pbf_writer_sub root_heap 1 0 5 0) 1) = strings root_heap"
  using size_zero_means_unknown[of root_heap 0 5 1 3] size_zero_means_unknown[of root_heap 0 5 1 0]
  by (simp add: root_heap_simps size_is_known_def write_varint_small reserve_bytes_eq replicate_5)

section \<open>Properties of the reader\<close>

lemma wire_type_cases: "(ucast ((v :: 64 word) AND 0x07) :: 32 word) \<in> {0, 1, 2, 3, 4, 5, 6, 7}"
proof -
  have "v AND 7 \<le> 7" by (rule word_and_le1)
  then have "unat (v AND 7) \<le> 7" by (simp add: word_le_nat_alt)
  then have "\<exists>n\<le>7. v AND 7 = of_nat n"
    by (intro exI[of _ "unat (v AND 7)"]) simp
  then obtain n :: nat where n: "n \<le> 7" "v AND 7 = of_nat n" by blast
  from n(1) have "n \<in> {0, 1, 2, 3, 4, 5, 6, 7}"
    by auto
  then show ?thesis unfolding n(2) by auto
qed

lemma decode_varint_fixed32_field: "decode_varint fixed32_field 0 5 = Inr (0x0D, 1)"
  by (simp add: decode_varint_def fixed32_field_def)

lemma decode_varint_written:
  "decode_varint (pre @ write_varint x @ post) (length pre) (length pre + length (write_varint x) + length post)
     = Inr (x, length pre + length (write_varint x))"
  by (simp add: decode_varint_def decode_write_varint)

lemma decode_varint_single_byte:
  assumes "p < e" and "e \<le> length bs" and "\<not> bit (bs ! p) 7"
  shows "decode_varint bs p e = Inr (ucast (bs ! p), p + 1)"
proof -
  from assms(1,2) have "drop p bs = bs ! p # drop (Suc p) bs"
    by (simp add: Cons_nth_drop_Suc)
  moreover from assms(1) obtain k where "e - p = Suc k" by (cases "e - p") auto
  ultimately have "take (e - p) (drop p bs) = bs ! p # take k (drop (Suc p) bs)"
    by simp
  with assms(3) show ?thesis by (simp add: decode_varint_def)
qed

lemma ucast_byte_eq_0: "(ucast (b :: byte) :: uint64_t) = 0 \<longleftrightarrow> b = 0"
proof -
  have "unat b < 2 ^ 8" using unsigned_less[of b] by simp
  then have "unat b < 2 ^ 64" by simp
  then have "take_bit 64 (unat b) = unat b" by (rule take_bit_nat_eq_self)
  then have "unat (ucast b :: uint64_t) = unat b" by (simp add: unsigned_ucast_eq)
  then have "unat (ucast b :: uint64_t) = 0 \<longleftrightarrow> unat b = 0" by simp
  then show ?thesis by (simp only: unat_eq_0)
qed

lemma header_wire_type:
  "(ucast ((ucast (push_bit 3 tg OR wt :: uint32_t) :: uint64_t) AND 0x07) :: uint32_t) = wt AND 7"
proof -
  have m: "(7 :: 'a::len word) = mask 3" by (simp add: mask_eq_exp_minus_1)
  show ?thesis
    unfolding m
    by (rule bit_word_eqI) (auto simp add: bit_simps)
qed

lemma ucast_scast_32_64: "(ucast (scast (w :: 32 word) :: 64 word) :: 32 word) = w"
  by (rule bit_word_eqI) (auto simp add: bit_simps)

lemma header_tag_value:
  assumes "unat (header :: uint64_t) < 2 ^ 35"
  shows "unat (ucast (drop_bit 3 header) :: pbf_tag_type) = unat header div 8"
proof -
  have d: "unat (drop_bit 3 header) = unat header div 8"
    by (simp add: drop_bit_eq_div unat_div)
  from assms have "unat header < 2 ^ 32 * 8" by simp
  then have "unat header div 8 < 2 ^ 32" by (rule less_mult_imp_div_less)
  then have "take_bit 32 (unat header div 8) = unat header div 8"
    by (rule take_bit_nat_eq_self)
  then show ?thesis by (simp add: unsigned_ucast_eq d)
qed

lemma header_wire_type_value:
  "unat (ucast ((header :: uint64_t) AND 7) :: pbf_wire_type) = unat header mod 8"
proof -
  have m: "(7 :: uint64_t) = mask 3" by (simp add: mask_eq_exp_minus_1)
  have "unat (header AND 7) = unat header mod 8"
    unfolding m by (simp add: unat_mod flip: take_bit_eq_mask add: take_bit_eq_mod)
  moreover have "unat header mod 8 < 2 ^ 32" by (rule less_trans[of _ 8]) simp_all
  then have "take_bit 32 (unat header mod 8) = unat header mod 8"
    by (rule take_bit_nat_eq_self)
  ultimately show ?thesis by (simp add: unsigned_ucast_eq)
qed

text \<open>
  C4.  A call of \<open>next()\<close> with the cursor at the end returns false and leaves the reader
  as it was.  Otherwise it decodes one varint as the field header (a failure of that
  decoding is passed on with the reader unchanged), advances the cursor past it, and sets
  the tag to \<open>header >> 3\<close> (as a \<open>pbf_tag_type\<close>: the quotient of the header by 8 when
  that fits 32 bits) and the wire type to \<open>header & 7\<close>; it throws
  \<open>unknown_pbf_wire_type_exception\<close> exactly when the wire type is 3, 4, 6 or 7 and returns
  true exactly when it is 0, 1, 2 or 5.
\<close>

theorem next_advances_to_field:
  "(m_data r = m_end r \<longrightarrow> next r = (Inr False, r)) \<and>
   (m_data r \<noteq> m_end r \<longrightarrow>
      (\<forall>e. decode_varint (mem r) (m_data r) (m_end r) = Inl e \<longrightarrow> next r = (Inl e, r)) \<and>
      (\<forall>header p. decode_varint (mem r) (m_data r) (m_end r) = Inr (header, p) \<longrightarrow>
         snd (next r) = r\<lparr>m_data := p, m_tag := ucast (drop_bit 3 header),
                           m_wire_type := ucast (header AND 7)\<rparr> \<and>
         (unat header < 2 ^ 35 \<longrightarrow> unat (m_tag (snd (next r))) = unat header div 8) \<and>
         unat (m_wire_type (snd (next r))) = unat header mod 8 \<and>
         (fst (next r) = Inl unknown_pbf_wire_type_exception
            \<longleftrightarrow> ucast (header AND 7) \<in> {3, 4, 6, 7 :: pbf_wire_type}) \<and>
         (fst (next r) = Inr True
            \<longleftrightarrow> ucast (header AND 7) \<in> {0, 1, 2, 5 :: pbf_wire_type})))"
proof (intro conjI impI allI)
  assume "m_data r = m_end r"
  then show "next r = (Inr False, r)" by (simp add: next_def)
next
  fix e
  assume "m_data r \<noteq> m_end r" "decode_varint (mem r) (m_data r) (m_end r) = Inl e"
  then show "next r = (Inl e, r)" by (simp add: next_def)
next
  fix header p
  assume a: "m_data r \<noteq> m_end r" "decode_varint (mem r) (m_data r) (m_end r) = Inr (header, p)"
  show s: "snd (next r) = r\<lparr>m_data := p, m_tag := ucast (drop_bit 3 header),
                           m_wire_type := ucast (header AND 7)\<rparr>"
    using a by (simp add: next_def Let_def)
  show "unat (m_tag (snd (next r))) = unat header div 8" if "unat header < 2 ^ 35"
    using that by (simp add: s header_tag_value)
  show "unat (m_wire_type (snd (next r))) = unat header mod 8"
    by (simp add: s header_wire_type_value)
  have wt: "(ucast (header AND 0x07) :: 32 word) \<in> {0, 1, 2, 3, 4, 5, 6, 7}"
    by (rule wire_type_cases)
  show "fst (next r) = Inl unknown_pbf_wire_type_exception
            \<longleftrightarrow> ucast (header AND 7) \<in> {3, 4, 6, 7 :: pbf_wire_type}"
    using a wt
    by (auto simp add: next_def Let_def varint_def fixed64_def length_delimited_def fixed32_def)
  show "fst (next r) = Inr True
            \<longleftrightarrow> ucast (header AND 7) \<in> {0, 1, 2, 5 :: pbf_wire_type}"
    using a wt
    by (auto simp add: next_def Let_def varint_def fixed64_def length_delimited_def fixed32_def)
qed

theorem next_advances_to_field_witness:
  "next (pbf_reader_new fixed32_field 5) =
     (Inr True, \<lparr>mem = fixed32_field, m_data = 1, m_end = 5, m_wire_type = 5, m_tag = 1\<rparr>)"
proof -
  let ?r = "pbf_reader_new fixed32_field 5"
  have d: "decode_varint (mem ?r) (m_data ?r) (m_end ?r) = Inr (0x0D, 1)"
    using decode_varint_fixed32_field by (simp add: pbf_reader_new_def)
  have ne: "m_data ?r \<noteq> m_end ?r" by (simp add: pbf_reader_new_def)
  from next_advances_to_field[of ?r] ne d
  have "snd (next ?r) = ?r\<lparr>m_data := 1, m_tag := ucast (drop_bit 3 (0x0D :: 64 word)),
                           m_wire_type := ucast ((0x0D :: 64 word) AND 7)\<rparr>"
   and "fst (next ?r) = Inr True \<longleftrightarrow> ucast ((0x0D :: 64 word) AND 7) \<in> {0, 1, 2, 5 :: pbf_wire_type}"
    by blast+
  then show ?thesis
    by (cases "next ?r") (simp add: pbf_reader_new_def)
qed

lemma add_sint64_buffer:
  "buffer (add_sint64 root_heap 0 tg v) 0 =
     write_varint (ucast (push_bit 3 tg OR varint)) @ write_varint (encode_zigzag64 v)"
  by (simp add: add_sint64_def add_impl_svarint_def add_field_def heap_defs root_heap_simps
      root_heap_def empty_heap_def pbf_writer_new_def)

lemma add_sint32_buffer:
  "buffer (add_sint32 root_heap 0 tg v) 0 =
     write_varint (ucast (push_bit 3 tg OR varint)) @ write_varint (encode_zigzag64 (scast v))"
  by (simp add: add_sint32_def add_impl_svarint_def add_field_def heap_defs root_heap_simps
      root_heap_def empty_heap_def pbf_writer_new_def)

lemma next_written_varint_field:
  "next (pbf_reader_new (write_varint (ucast (push_bit 3 tg OR varint)) @ write_varint x)
          (length (write_varint (ucast (push_bit 3 tg OR varint)) @ write_varint x))) =
    (Inr True,
     \<lparr>mem = write_varint (ucast (push_bit 3 tg OR varint)) @ write_varint x,
      m_data = length (write_varint (ucast (push_bit 3 tg OR varint))),
      m_end = length (write_varint (ucast (push_bit 3 tg OR varint)) @ write_varint x),
      m_wire_type = varint,
      m_tag = ucast (drop_bit 3 (ucast (push_bit 3 tg OR varint) :: uint64_t))\<rparr>)"
proof -
  let ?h = "write_varint (ucast (push_bit 3 tg OR varint))"
  have d: "decode_varint (?h @ write_varint x) 0 (length ?h + length (write_varint x))
             = Inr (ucast (push_bit 3 tg OR varint), length ?h)"
    using decode_varint_written[of "[]" "ucast (push_bit 3 tg OR varint)" "write_varint x"]
    by simp
  have w: "(ucast ((ucast (push_bit 3 tg OR varint :: uint32_t) :: uint64_t) AND 0x07) :: uint32_t) = varint"
    unfolding header_wire_type by (simp add: varint_def)
  show ?thesis
    using write_varint_length_pos[of "ucast (push_bit 3 tg OR varint)"]
    by (simp add: next_def pbf_reader_new_def d w Let_def)
qed

lemma get_scalar_svarint_written:
  "get_scalar_svarint \<lparr>mem = pre @ write_varint x, m_data = length pre,
      m_end = length pre + length (write_varint x), m_wire_type = wt, m_tag = t\<rparr> =
    (Inr (decode_zigzag64 x),
     \<lparr>mem = pre @ write_varint x, m_data = length pre + length (write_varint x),
      m_end = length pre + length (write_varint x), m_wire_type = wt, m_tag = t\<rparr>)"
  using decode_varint_written[of pre x "[]"]
  by (simp add: get_scalar_svarint_def)

text \<open>
  C8.  \<open>decode_zigzag64\<close> undoes \<open>encode_zigzag64\<close> on every 64-bit integer, and
  \<open>encode_zigzag64\<close> undoes \<open>decode_zigzag64\<close>: the encoding is a bijection.  A \<open>sint64\<close>
  or \<open>sint32\<close> field written by the writer into an empty buffer is found by \<open>next()\<close> and
  read back by \<open>get_sint64\<close>, respectively \<open>get_sint32\<close>, with the value that was written.
\<close>

theorem zigzag_roundtrip:
  "decode_zigzag64 (encode_zigzag64 i) = i \<and>
   encode_zigzag64 (decode_zigzag64 u) = u \<and>
   bij encode_zigzag64 \<and>
   (let buf = buffer (add_sint64 root_heap 0 tg v) 0;
        r = pbf_reader_new buf (length buf)
    in fst (next r) = Inr True \<and> fst (get_sint64 (snd (next r))) = Inr v) \<and>
   (let buf = buffer (add_sint32 root_heap 0 tg w) 0;
        r = pbf_reader_new buf (length buf)
    in fst (next r) = Inr True \<and> fst (get_sint32 (snd (next r))) = Inr w)"
proof (intro conjI)
  show "decode_zigzag64 (encode_zigzag64 i) = i" by (rule decode_encode_zigzag64)
  show "encode_zigzag64 (decode_zigzag64 u) = u" by (rule encode_decode_zigzag64)
  show "bij encode_zigzag64"
    by (rule bij_betw_byWitness[where f' = decode_zigzag64])
       (simp_all add: decode_encode_zigzag64 encode_decode_zigzag64)
  show "let buf = buffer (add_sint64 root_heap 0 tg v) 0;
        r = pbf_reader_new buf (length buf)
    in fst (next r) = Inr True \<and> fst (get_sint64 (snd (next r))) = Inr v"
    unfolding Let_def add_sint64_buffer next_written_varint_field
    by (simp add: get_sint64_def get_scalar_svarint_written decode_encode_zigzag64)
  show "let buf = buffer (add_sint32 root_heap 0 tg w) 0;
        r = pbf_reader_new buf (length buf)
    in fst (next r) = Inr True \<and> fst (get_sint32 (snd (next r))) = Inr w"
    unfolding Let_def add_sint32_buffer next_written_varint_field
    by (simp add: get_sint32_def get_scalar_svarint_written decode_encode_zigzag64
        ucast_scast_32_64)
qed

theorem zigzag_roundtrip_witness:
  "encode_zigzag64 (- 17) = 33 \<and>
   decode_zigzag64 (encode_zigzag64 (- 17)) = - 17 \<and>
   encode_zigzag64 (decode_zigzag64 33) = 33 \<and>
   fst (get_sint64 (snd (next (pbf_reader_new (buffer (add_sint64 root_heap 0 7 (- 17)) 0)
          (length (buffer (add_sint64 root_heap 0 7 (- 17)) 0)))))) = Inr (- 17)"
  using zigzag_roundtrip[of "- 17" 33 7 "- 17"]
  by (simp add: Let_def encode_zigzag64_def signed_drop_bit_63)

text \<open>
  C3, as the code has it.  \<open>get_bool\<close> reads exactly one byte: with a byte left before the end it
  returns false if and only if that byte is zero and advances the cursor by one; at the
  end it fails with \<open>end_of_buffer_exception\<close> and leaves the reader as it was.  When the
  byte is a whole varint (its high bit is clear, which the function asserts), the result is
  true if and only if the encoded value is not zero.
\<close>

theorem get_bool_reads_one_byte:
  "(m_data r < m_end r \<longrightarrow>
      get_bool r = (Inr (mem r ! m_data r \<noteq> 0), r\<lparr>m_data := m_data r + 1\<rparr>)) \<and>
   (\<not> m_data r < m_end r \<longrightarrow> get_bool r = (Inl end_of_buffer_exception, r)) \<and>
   (m_data r < m_end r \<and> m_end r \<le> length (mem r) \<and> \<not> bit (mem r ! m_data r) 7 \<longrightarrow>
      decode_varint (mem r) (m_data r) (m_end r) = Inr (ucast (mem r ! m_data r), m_data r + 1) \<and>
      fst (get_bool r) = Inr ((ucast (mem r ! m_data r) :: uint64_t) \<noteq> 0))"
proof (intro conjI impI)
  assume "m_data r < m_end r"
  then show "get_bool r = (Inr (mem r ! m_data r \<noteq> 0), r\<lparr>m_data := m_data r + 1\<rparr>)"
    by (simp add: get_bool_def get_scalar_bool_def skip_bytes_def)
next
  assume "\<not> m_data r < m_end r"
  then show "get_bool r = (Inl end_of_buffer_exception, r)"
    by (simp add: get_bool_def get_scalar_bool_def skip_bytes_def)
next
  assume a: "m_data r < m_end r \<and> m_end r \<le> length (mem r) \<and> \<not> bit (mem r ! m_data r) 7"
  then show "decode_varint (mem r) (m_data r) (m_end r) = Inr (ucast (mem r ! m_data r), m_data r + 1)"
    by (simp add: decode_varint_single_byte)
  from a show "fst (get_bool r) = Inr ((ucast (mem r ! m_data r) :: uint64_t) \<noteq> 0)"
    by (simp add: get_bool_def get_scalar_bool_def skip_bytes_def ucast_byte_eq_0)
qed

theorem get_bool_reads_one_byte_witness:
  "get_bool \<lparr>mem = [0x08, 0x01], m_data = 1, m_end = 2, m_wire_type = 0, m_tag = 1\<rparr> =
     (Inr True, \<lparr>mem = [0x08, 0x01], m_data = 2, m_end = 2, m_wire_type = 0, m_tag = 1\<rparr>) \<and>
   get_bool \<lparr>mem = [0x08, 0x00], m_data = 1, m_end = 2, m_wire_type = 0, m_tag = 1\<rparr> =
     (Inr False, \<lparr>mem = [0x08, 0x00], m_data = 2, m_end = 2, m_wire_type = 0, m_tag = 1\<rparr>) \<and>
   decode_varint [0x08, 0x01] 1 2 = Inr (1, 2)"
  using get_bool_reads_one_byte[of "\<lparr>mem = [0x08, 0x01], m_data = 1, m_end = 2, m_wire_type = 0, m_tag = 1\<rparr>"]
    get_bool_reads_one_byte[of "\<lparr>mem = [0x08, 0x00], m_data = 1, m_end = 2, m_wire_type = 0, m_tag = 1\<rparr>"]
  by simp

text \<open>
  C3 as stated fails on varints of more than one byte: for the payload \<open>80 00\<close>, which
  encodes 0, \<open>get_bool\<close> returns true; and for \<open>80 01\<close> it consumes the first of the two
  bytes only, so the field is not consumed.
\<close>

theorem get_bool_multi_byte_counterexample:
  "next (pbf_reader_new two_byte_zero_field 3) =
     (Inr True, \<lparr>mem = two_byte_zero_field, m_data = 1, m_end = 3, m_wire_type = 0, m_tag = 1\<rparr>) \<and>
   decode_varint two_byte_zero_field 1 3 = Inr (0, 3) \<and>
   get_bool \<lparr>mem = two_byte_zero_field, m_data = 1, m_end = 3, m_wire_type = 0, m_tag = 1\<rparr> =
     (Inr True, \<lparr>mem = two_byte_zero_field, m_data = 2, m_end = 3, m_wire_type = 0, m_tag = 1\<rparr>) \<and>
   decode_varint two_byte_bool_field 1 3 = Inr (128, 3) \<and>
   get_bool \<lparr>mem = two_byte_bool_field, m_data = 1, m_end = 3, m_wire_type = 0, m_tag = 1\<rparr> =
     (Inr True, \<lparr>mem = two_byte_bool_field, m_data = 2, m_end = 3, m_wire_type = 0, m_tag = 1\<rparr>)"
  by (simp add: next_def pbf_reader_new_def decode_varint_def two_byte_zero_field_def
      two_byte_bool_field_def get_bool_def get_scalar_bool_def skip_bytes_def Let_def
      varint_def fixed64_def length_delimited_def fixed32_def unknown_def)

text \<open>
  The scalar readers do keep the reader as it was when they fail: \<open>decode_varint\<close> and
  \<open>skip_bytes\<close> write the cursor only on success, and each of these readers calls one of
  them once.
\<close>

lemma failing_scalar_read_keeps_reader:
  "fst (get_length r) = Inl e \<Longrightarrow> snd (get_length r) = r"
  "fst (skip_bytes len r) = Inl e \<Longrightarrow> snd (skip_bytes len r) = r"
  "fst (get_scalar_varint r) = Inl e \<Longrightarrow> snd (get_scalar_varint r) = r"
  "fst (get_scalar_svarint r) = Inl e \<Longrightarrow> snd (get_scalar_svarint r) = r"
  "fst (get_scalar_bool r) = Inl e \<Longrightarrow> snd (get_scalar_bool r) = r"
  "fst (get_scalar_fixed sz r) = Inl e \<Longrightarrow> snd (get_scalar_fixed sz r) = r"
  by (auto simp add: get_length_def skip_bytes_def get_scalar_varint_def get_scalar_svarint_def
      get_scalar_bool_def get_scalar_fixed_def split: sum.splits prod.splits if_splits)

text \<open>
  C1.  The code at a failing input: on a string field that announces five bytes and holds
  one, \<open>get_view\<close>, \<open>get_data\<close> and \<open>skip\<close> fail with \<open>end_of_buffer_exception\<close> after the
  cursor has moved past the length; and \<open>next()\<close> on a header of wire type 3 fails with
  \<open>unknown_pbf_wire_type_exception\<close> after the cursor, the tag and the wire type have been
  written.  The reader is not what it was before the failing call.
\<close>

theorem get_view_failure_moves_cursor:
  "next (pbf_reader_new truncated_string_field 3) =
     (Inr True, \<lparr>mem = truncated_string_field, m_data = 1, m_end = 3, m_wire_type = 2, m_tag = 1\<rparr>) \<and>
   get_view \<lparr>mem = truncated_string_field, m_data = 1, m_end = 3, m_wire_type = 2, m_tag = 1\<rparr> =
     (Inl end_of_buffer_exception,
      \<lparr>mem = truncated_string_field, m_data = 2, m_end = 3, m_wire_type = 2, m_tag = 1\<rparr>) \<and>
   get_data \<lparr>mem = truncated_string_field, m_data = 1, m_end = 3, m_wire_type = 2, m_tag = 1\<rparr> =
     (Inl end_of_buffer_exception,
      \<lparr>mem = truncated_string_field, m_data = 2, m_end = 3, m_wire_type = 2, m_tag = 1\<rparr>) \<and>
   skip \<lparr>mem = truncated_string_field, m_data = 1, m_end = 3, m_wire_type = 2, m_tag = 1\<rparr> =
     (Inl end_of_buffer_exception,
      \<lparr>mem = truncated_string_field, m_data = 2, m_end = 3, m_wire_type = 2, m_tag = 1\<rparr>) \<and>
   next (pbf_reader_new start_group_field 1) =
     (Inl unknown_pbf_wire_type_exception,
      \<lparr>mem = start_group_field, m_data = 1, m_end = 1, m_wire_type = 3, m_tag = 1\<rparr>)"
  by (simp add: next_def pbf_reader_new_def decode_varint_def truncated_string_field_def
      start_group_field_def get_view_def get_data_def skip_def wire_type_def
      get_scalar_length_delimited_def get_len_and_skip_def get_length_def skip_bytes_def
      Let_def varint_def fixed64_def length_delimited_def fixed32_def unknown_def)

end
